theory Spec2Isabelle
  imports
    Complex_Main
    "HOL-Library.List_Lexorder"
    "HOL-Library.Product_Lexorder"
    "HOL-Library.Multiset"
begin

section \<open>JavaScript values used by the front end\<close>

text \<open>
  A JavaScript string is a sequence of UTF-16 code units; the questions typed into the
  chat are Korean text, so code units are natural numbers here and not 8-bit characters.
  \<open>lit\<close> writes an ASCII literal of the source as such a sequence.
\<close>

type_synonym jsstring = "nat list"

definition lit :: "string \<Rightarrow> jsstring" where
  "lit s = map of_char s"

text \<open>
  \<open>String.prototype.trim\<close> removes the WhiteSpace and LineTerminator code units of
  ECMAScript from both ends: TAB, LF, VT, FF, CR, SP, NBSP, U+1680, U+2000..U+200A,
  U+2028, U+2029, U+202F, U+205F, U+3000 and U+FEFF.
\<close>

definition isWhiteSpace :: "nat \<Rightarrow> bool" where
  "isWhiteSpace c \<longleftrightarrow>
     c \<in> set [9, 10, 11, 12, 13, 32, 160, 5760, 8232, 8233, 8239, 8287, 12288, 65279]
     \<or> (8192 \<le> c \<and> c \<le> 8202)"

definition js_trim :: "jsstring \<Rightarrow> jsstring" where
  "js_trim s = rev (dropWhile isWhiteSpace (rev (dropWhile isWhiteSpace s)))"

text \<open>
  A JavaScript number as \<open>Math.min\<close> and \<open>Math.max\<close> see it: NaN, the two
  infinities, or a finite value. Both functions return NaN as soon as one argument is NaN
  and compare otherwise; no rounding happens, so a finite double is the real it denotes.
  (The sign of zero, which \<open>Math.max\<close> also looks at, never reaches a result here: the
  bounds compared with are 1, 20, 1000 and 20000.)
\<close>

datatype jsnum = NaN | NegInfinity | Finite real | PosInfinity

fun js_le :: "jsnum \<Rightarrow> jsnum \<Rightarrow> bool" where
  "js_le NaN _ = False"
| "js_le _ NaN = False"
| "js_le NegInfinity _ = True"
| "js_le _ PosInfinity = True"
| "js_le (Finite x) (Finite y) = (x \<le> y)"
| "js_le (Finite x) NegInfinity = False"
| "js_le PosInfinity (Finite y) = False"
| "js_le PosInfinity NegInfinity = False"

definition Math_max :: "jsnum \<Rightarrow> jsnum \<Rightarrow> jsnum" where
  "Math_max a b = (if a = NaN \<or> b = NaN then NaN else if js_le a b then b else a)"

definition Math_min :: "jsnum \<Rightarrow> jsnum \<Rightarrow> jsnum" where
  "Math_min a b = (if a = NaN \<or> b = NaN then NaN else if js_le a b then a else b)"

section \<open>The chat window (ChatWindow.tsx, ChatInput.tsx)\<close>

datatype mode = Auto | Law | Rule

text \<open>
  The React state of \<open>ChatWindow\<close> that decides what is posted: the in-flight flag and
  the five controls. The message list, the Reset button that clears it and the rendering
  are left out; nothing that is sent reads them.
\<close>

record ChatWindow_state =
  loading :: bool
  mode :: mode
  useLaw :: bool
  useRule :: bool
  topk :: jsnum
  ctxChars :: jsnum

text \<open>The JSON body of the POST to \<open>/ask\<close>; a field that is undefined is omitted.\<close>

record AskRequest =
  body_question :: jsstring
  body_topk :: jsnum
  body_mode :: mode
  body_ctx_chars :: jsnum
  body_dbs :: "jsstring list option"

text \<open>
  The application: the window's state, the text state of \<open>ChatInput\<close>, and the
  requests handed to \<open>fetch\<close> so far, oldest first.
\<close>

record app =
  window :: ChatWindow_state
  input_text :: jsstring
  posted :: "AskRequest list"

definition initial :: app where
  "initial =
     \<lparr> window = \<lparr> loading = False, mode = Auto, useLaw = True, useRule = True,
                  topk = Finite 5, ctxChars = Finite 6000 \<rparr>,
       input_text = [],
       posted = [] \<rparr>"

text \<open>
  The list \<open>dbs\<close> built in \<open>handleSend\<close>: two conditional pushes, law first.
\<close>

definition selected_dbs :: "ChatWindow_state \<Rightarrow> jsstring list" where
  "selected_dbs w =
     (if useLaw w then [lit ''vector_db_law''] else [])
     @ (if useRule w then [lit ''vector_db_rule''] else [])"

text \<open>The object literal given to \<open>JSON.stringify\<close>; \<open>dbs.length ? dbs : undefined\<close>.\<close>

definition ask_body :: "jsstring \<Rightarrow> ChatWindow_state \<Rightarrow> AskRequest" where
  "ask_body t w =
     \<lparr> body_question = t,
       body_topk = topk w,
       body_mode = mode w,
       body_ctx_chars = ctxChars w,
       body_dbs = (let dbs = selected_dbs w in if length dbs \<noteq> 0 then Some dbs else None) \<rparr>"

text \<open>
  \<open>handleSend\<close> up to its first \<open>await\<close>: the guard, \<open>setLoading(true)\<close> and the
  call of \<open>fetch\<close>. The rest of the function runs when the response settles.
\<close>

definition handleSend :: "jsstring \<Rightarrow> app \<Rightarrow> app" where
  "handleSend t a =
     (if js_trim t = [] \<or> loading (window a) then a
      else a \<lparr> window := (window a) \<lparr> loading := True \<rparr>,
               posted := posted a @ [ask_body t (window a)] \<rparr>)"

text \<open>The \<open>finally\<close> block of \<open>handleSend\<close>, reached on success and on failure.\<close>

definition settle :: "app \<Rightarrow> app" where
  "settle a = a \<lparr> window := (window a) \<lparr> loading := False \<rparr> \<rparr>"

text \<open>
  \<open>ChatInput\<close> with its two props: \<open>handleSubmit\<close> of the form, and \<open>onKeyDown\<close> of
  the textarea, which submits on Enter without Shift.
\<close>

definition handleSubmit :: "(jsstring \<Rightarrow> app \<Rightarrow> app) \<Rightarrow> bool \<Rightarrow> app \<Rightarrow> app" where
  "handleSubmit onSend disabled a =
     (if js_trim (input_text a) = [] \<or> disabled then a
      else (onSend (input_text a) a) \<lparr> input_text := [] \<rparr>)"

definition onKeyDown :: "(jsstring \<Rightarrow> app \<Rightarrow> app) \<Rightarrow> bool \<Rightarrow> jsstring \<Rightarrow> bool \<Rightarrow> app \<Rightarrow> app" where
  "onKeyDown onSend disabled key shiftKey a =
     (if key = lit ''Enter'' \<and> \<not> shiftKey then
        (if js_trim (input_text a) = [] \<or> disabled then a
         else (onSend (input_text a) a) \<lparr> input_text := [] \<rparr>)
      else a)"

text \<open>
  What can happen to the page. The numeric controls pass \<open>Number(e.target.value)\<close>
  through the clamp; \<open>ChatWindow\<close> renders \<open>ChatInput\<close> with \<open>onSend = handleSend\<close> and
  \<open>disabled = loading\<close>.
\<close>

datatype event =
    TypeText jsstring
  | Submit
  | KeyDown jsstring bool
  | SetMode mode
  | SetUseLaw bool
  | SetUseRule bool
  | ChangeTopk jsnum
  | ChangeCtxChars jsnum
  | Settled

definition setTopk :: "jsnum \<Rightarrow> jsnum" where
  "setTopk v = Math_min (Finite 20) (Math_max (Finite 1) v)"

definition setCtxChars :: "jsnum \<Rightarrow> jsnum" where
  "setCtxChars v = Math_min (Finite 20000) (Math_max (Finite 1000) v)"

fun step :: "app \<Rightarrow> event \<Rightarrow> app" where
  "step a (TypeText t) = a \<lparr> input_text := t \<rparr>"
| "step a Submit = handleSubmit handleSend (loading (window a)) a"
| "step a (KeyDown key shiftKey) = onKeyDown handleSend (loading (window a)) key shiftKey a"
| "step a (SetMode m) = a \<lparr> window := (window a) \<lparr> mode := m \<rparr> \<rparr>"
| "step a (SetUseLaw b) = a \<lparr> window := (window a) \<lparr> useLaw := b \<rparr> \<rparr>"
| "step a (SetUseRule b) = a \<lparr> window := (window a) \<lparr> useRule := b \<rparr> \<rparr>"
| "step a (ChangeTopk v) = a \<lparr> window := (window a) \<lparr> topk := setTopk v \<rparr> \<rparr>"
| "step a (ChangeCtxChars v) = a \<lparr> window := (window a) \<lparr> ctxChars := setCtxChars v \<rparr> \<rparr>"
| "step a Settled = settle a"

fun run :: "app \<Rightarrow> event list \<Rightarrow> app" where
  "run a [] = a"
| "run a (e # es) = run (step a e) es"

definition dbs_ok :: "AskRequest \<Rightarrow> bool" where
  "dbs_ok r =
     (case body_dbs r of
        None \<Rightarrow> True
      | Some l \<Rightarrow> l \<noteq> [] \<and> set l \<subseteq> {lit ''vector_db_law'', lit ''vector_db_rule''})"

text \<open>
  A stored control value that lies between two bounds, and the requests and window
  states whose two numeric parameters do.
\<close>

definition in_range :: "real \<Rightarrow> real \<Rightarrow> jsnum \<Rightarrow> bool" where
  "in_range lo hi v = (case v of Finite r \<Rightarrow> lo \<le> r \<and> r \<le> hi | _ \<Rightarrow> False)"

definition controls_ok :: "ChatWindow_state \<Rightarrow> bool" where
  "controls_ok w \<longleftrightarrow> in_range 1 20 (topk w) \<and> in_range 1000 20000 (ctxChars w)"

definition bounds_ok :: "AskRequest \<Rightarrow> bool" where
  "bounds_ok r \<longleftrightarrow> in_range 1 20 (body_topk r) \<and> in_range 1000 20000 (body_ctx_chars r)"

text \<open>
  An event is numeric when the number it carries is not NaN. The two controls are
  \<open>input type="number"\<close> elements: their \<open>value\<close> is the empty string or a valid
  floating-point literal, which \<open>Number\<close> maps to 0 or to a finite number.
\<close>

definition numeric :: "event \<Rightarrow> bool" where
  "numeric e = (case e of ChangeTopk v \<Rightarrow> v \<noteq> NaN | ChangeCtxChars v \<Rightarrow> v \<noteq> NaN | _ \<Rightarrow> True)"

section \<open>Resolving a hit's image address (EvidencePanel.tsx, HitCard)\<close>

definition startsWith :: "jsstring \<Rightarrow> jsstring \<Rightarrow> bool" where
  "startsWith s p \<longleftrightarrow> take (length p) s = p"

text \<open>
  The regular expression \<open>/^https?:\/\//i\<close>. Under the flag \<open>i\<close> (without \<open>u\<close>) a
  code unit matches a pattern letter exactly when it is that ASCII letter in either case,
  so the test is a prefix test on the ASCII-lowercased string.
\<close>

definition ascii_lower :: "nat \<Rightarrow> nat" where
  "ascii_lower c = (if 65 \<le> c \<and> c \<le> 90 then c + 32 else c)"

definition is_http_url :: "jsstring \<Rightarrow> bool" where
  "is_http_url u \<longleftrightarrow>
     startsWith (map ascii_lower u) (lit ''http://'') \<or>
     startsWith (map ascii_lower u) (lit ''https://'')"

text \<open>\<open>s.replace(/\/+$/, "")\<close>, \<open>s.replace(/^\/+/, "")\<close> and \<open>s.replace(/\/$/, "")\<close>.\<close>

definition strip_trailing_slashes :: "jsstring \<Rightarrow> jsstring" where
  "strip_trailing_slashes s = rev (dropWhile (\<lambda>c. c = 47) (rev s))"

definition strip_leading_slashes :: "jsstring \<Rightarrow> jsstring" where
  "strip_leading_slashes s = dropWhile (\<lambda>c. c = 47) s"

definition strip_one_trailing_slash :: "jsstring \<Rightarrow> jsstring" where
  "strip_one_trailing_slash s = (if s \<noteq> [] \<and> last s = 47 then butlast s else s)"

text \<open>
  \<open>absolutize\<close> of EvidencePanel.tsx. The platform's \<open>new URL(url, base).toString()\<close>
  is a parameter: it gives the resolved address, or \<open>None\<close> where the constructor throws,
  which the \<open>catch\<close> turns into the unresolved \<open>url\<close>. An absent \<open>url\<close> is \<open>None\<close>,
  and \<open>!url\<close> holds for the absent and for the empty string.
\<close>

definition absolutize ::
  "(jsstring \<Rightarrow> jsstring \<Rightarrow> jsstring option) \<Rightarrow> jsstring \<Rightarrow> jsstring option \<Rightarrow> jsstring option" where
  "absolutize new_URL apiBase url =
     (case url of
        None \<Rightarrow> None
      | Some u \<Rightarrow>
          if u = [] then None
          else if is_http_url u then Some u
          else if startsWith u (lit ''/'') then
            (case new_URL u apiBase of Some r \<Rightarrow> Some r | None \<Rightarrow> Some u)
          else Some (strip_trailing_slashes apiBase @ lit ''/'' @ strip_leading_slashes u))"

text \<open>\<open>imgSrc\<close> of \<open>HitCard\<close>, from the hit's \<open>image_url\<close> and \<open>apiBase\<close>.\<close>

definition imgSrc :: "jsstring \<Rightarrow> jsstring option \<Rightarrow> jsstring option" where
  "imgSrc apiBase image_url =
     (case image_url of
        None \<Rightarrow> None
      | Some u \<Rightarrow>
          if u = [] then None
          else if startsWith u (lit ''http'') then Some u
          else Some (strip_one_trailing_slash apiBase @ u))"


section \<open>The query router\<close>

text \<open>
  The server that answers \<open>/ask\<close> is not among the sources of this development: the
  front end above is. The definitions of this section follow the specification's
  sections 3, 4.3 and 4.4 sentence by sentence. A string of the core is a sequence of
  characters, written as numbers like the front end's; a distance is a real number, since
  ranking only compares distances. The router is modelled up to the ranked hits. The
  context assembled from them is left out: for a hit that does not fit the budget,
  section 4.4 stops before it and the scenario of section 8 appends it truncated.
\<close>

text \<open>
  Modelled from the spec: the text of a record, a label or a question, as the sequence of
  its characters. The server's string type is missing.
\<close>

type_synonym str = "nat list"

text \<open>
  Modelled from the spec: \<open>content_format\<close> of section 3, \<open>plain\<close> or \<open>markdown\<close>. The
  extractor's record type is missing.
\<close>

datatype content_format = Plain | Markdown

text \<open>
  Modelled from the spec: the IndexEntry of section 3, an embedding vector with the
  displayable fields of the record it was built from. The index builder is missing.
\<close>

record entry =
  vector :: "real list"
  source_name :: str
  locator :: str
  content :: str
  content_format :: content_format
  page_image_path :: "str option"

text \<open>
  Modelled from the spec: the Index of section 3, a labelled collection of entries of
  one fixed dimensionality. The index loader is missing.
\<close>

record index =
  label :: str
  dim :: nat
  entries :: "entry list"

text \<open>
  Modelled from the spec: the Registry of section 4.3, a mapping from label to loaded
  Index. The server's registry is missing.
\<close>

type_synonym registry = "str \<rightharpoonup> index"

text \<open>
  Modelled from the spec: the Hit of section 3, with the fields of the response of
  section 6. The server's response type is missing.
\<close>

record hit =
  hit_source_name :: str
  hit_locator :: str
  hit_content :: str
  hit_content_format :: content_format
  distance :: real
  hit_label :: str
  image_url :: "str option"

text \<open>
  Modelled from the spec: the Query of section 3 and the request of section 6. The
  server's request type is missing.
\<close>

record query =
  question :: str
  query_mode :: mode
  top_k :: nat
  context_char_budget :: nat
  selected_indexes :: "str list option"

text \<open>
  Modelled from the spec: what the specification leaves to configuration and to the
  external collaborators: the configured default set of labels, which labels are law and
  which are rule indexes, the static-serving base path, the embedding of a text, the
  distance of two vectors and the citation string of an entry. The server's configuration
  is missing.
\<close>

record config =
  configured_indexes :: "str list"
  is_law :: "str \<Rightarrow> bool"
  is_rule :: "str \<Rightarrow> bool"
  static_base :: str
  embed :: "str \<Rightarrow> real list"
  dist :: "real list \<Rightarrow> real list \<Rightarrow> real"
  cite :: "str \<Rightarrow> str \<Rightarrow> str"

text \<open>
  Modelled from the spec: the query-time failures of section 7, and the configuration
  error of section 4.4 for zero selected indexes. The server's error type is missing.
\<close>

datatype error = UnknownIndex str | DimensionMismatch str | NoIndexSelected

text \<open>
  Modelled from the spec: \<open>search(label, queryVector, k)\<close> of section 4.3, the k nearest
  entries by ascending distance, \<open>UnknownIndex\<close> for a label never loaded and
  \<open>DimensionMismatch\<close> for a query vector of another dimensionality. The server's search
  is missing.
\<close>

definition search ::
  "(real list \<Rightarrow> real list \<Rightarrow> real) \<Rightarrow> registry \<Rightarrow> str \<Rightarrow> real list \<Rightarrow> nat
     \<Rightarrow> error + (entry \<times> real) list" where
  "search d reg l qv k =
     (case reg l of
        None \<Rightarrow> Inl (UnknownIndex l)
      | Some ix \<Rightarrow>
          if length qv \<noteq> dim ix then Inl (DimensionMismatch l)
          else Inr (take k (sort_key snd (map (\<lambda>e. (e, d qv (vector e))) (entries ix)))))"

text \<open>
  Modelled from the spec: the selected labels of section 3, the request's explicit list
  or else the configured set. The server's router is missing.
\<close>

definition selected :: "config \<Rightarrow> query \<Rightarrow> str list" where
  "selected cfg q =
     (case selected_indexes q of None \<Rightarrow> configured_indexes cfg | Some ls \<Rightarrow> ls)"

text \<open>
  Modelled from the spec: mode resolution of section 4.4: \<open>auto\<close> searches all selected
  indexes, \<open>law\<close> only the law-labelled and \<open>rule\<close> only the rule-labelled ones. The server's
  router is missing.
\<close>

definition indexes_for :: "config \<Rightarrow> query \<Rightarrow> str list" where
  "indexes_for cfg q =
     (case query_mode q of
        Auto \<Rightarrow> selected cfg q
      | Law \<Rightarrow> filter (is_law cfg) (selected cfg q)
      | Rule \<Rightarrow> filter (is_rule cfg) (selected cfg q))"

text \<open>
  Modelled from the spec: the hit of an entry found at a distance; \<open>image_url\<close> is the
  entry's \<open>page_image_path\<close> prefixed with the static-serving base path, and absent when
  the path is. The server's hit construction is missing.
\<close>

definition to_hit :: "config \<Rightarrow> entry \<times> real \<Rightarrow> hit" where
  "to_hit cfg p =
     \<lparr> hit_source_name = source_name (fst p),
       hit_locator = locator (fst p),
       hit_content = content (fst p),
       hit_content_format = content_format (fst p),
       distance = snd p,
       hit_label = cite cfg (source_name (fst p)) (locator (fst p)),
       image_url = map_option (\<lambda>path. static_base cfg @ path) (page_image_path (fst p)) \<rparr>"

text \<open>
  Modelled from the spec: a result before the merge, with the label of its index and its
  original rank there, the two tie-breakers of section 4.4. The server's merge is missing.
\<close>

type_synonym candidate = "str \<times> nat \<times> hit"

text \<open>
  Modelled from the spec: the results of one index queried for \<open>k\<close> entries, in rank
  order; a failed search contributes nothing (section 7: the query fails for the affected
  index only). The server's per-index query is missing.
\<close>

definition index_candidates ::
  "config \<Rightarrow> registry \<Rightarrow> real list \<Rightarrow> nat \<Rightarrow> str \<Rightarrow> candidate list" where
  "index_candidates cfg reg qv k l =
     (case search (dist cfg) reg l qv k of
        Inl e \<Rightarrow> []
      | Inr found \<Rightarrow> map (\<lambda>(i, p). (l, i, to_hit cfg p)) (enumerate 0 found))"

text \<open>
  Modelled from the spec: the results of all indexes the mode resolves to, each queried
  with the embedded question for \<open>top_k\<close> entries. The server's router is missing.
\<close>

definition candidates :: "config \<Rightarrow> registry \<Rightarrow> query \<Rightarrow> candidate list" where
  "candidates cfg reg q =
     concat (map (index_candidates cfg reg (embed cfg (question q)) (top_k q))
                 (indexes_for cfg q))"

text \<open>
  Modelled from the spec: the sort key of section 4.4: ascending distance, ties broken by
  index label and then by original rank. Triples and labels are ordered
  lexicographically. The server's merge is missing.
\<close>

definition merge_key :: "candidate \<Rightarrow> real \<times> str \<times> nat" where
  "merge_key c = (distance (snd (snd c)), fst c, fst (snd c))"

text \<open>
  Modelled from the spec: the merge of section 4.4, one global sort of all candidates,
  truncated to \<open>top_k\<close> entries. The server's merge is missing.
\<close>

definition merge_hits :: "nat \<Rightarrow> candidate list \<Rightarrow> candidate list" where
  "merge_hits k cs = take k (sort_key merge_key cs)"

text \<open>
  Modelled from the spec: the result of \<open>answerQuery\<close>, the ranked hits of section 4.4
  with the \<open>used_indexes\<close> of section 6. The server's response type is missing.
\<close>

record response =
  hits :: "hit list"
  used_indexes :: "str list"

text \<open>
  Modelled from the spec: \<open>answerQuery\<close> of section 4.4: resolve the mode, search each
  index, merge; zero selected indexes is a configuration error. The server's \<open>/ask\<close>
  handler is missing.
\<close>

definition answerQuery :: "config \<Rightarrow> registry \<Rightarrow> query \<Rightarrow> error + response" where
  "answerQuery cfg reg q =
     (if indexes_for cfg q = [] then Inl NoIndexSelected
      else
        let hs = map (\<lambda>c. snd (snd c)) (merge_hits (top_k q) (candidates cfg reg q))
        in Inr \<lparr> hits = hs, used_indexes = indexes_for cfg q \<rparr>)"

section \<open>Example data\<close>

text \<open>
  A law index and a rule index over one-dimensional vectors, with the absolute difference
  as distance. For the query vector \<open>[0]\<close> the best law entry lies at distance 0.10 and
  the best rule entry at 0.05; a second rule entry ties with the best law entry.
\<close>

definition law_label :: str where
  "law_label = lit ''vector_db_law''"

definition rule_label :: str where
  "rule_label = lit ''vector_db_rule''"

definition law_entry_a :: entry where
  "law_entry_a =
     \<lparr> vector = [3/10], source_name = lit ''Act'', locator = lit ''Art-2'',
       content = lit ''ventilation duty'', content_format = Plain, page_image_path = None \<rparr>"

definition law_entry_b :: entry where
  "law_entry_b =
     \<lparr> vector = [1/10], source_name = lit ''Act'', locator = lit ''Art-1'',
       content = lit ''confined space'', content_format = Plain, page_image_path = None \<rparr>"

definition rule_entry_a :: entry where
  "rule_entry_a =
     \<lparr> vector = [1/20], source_name = lit ''Rule'', locator = lit ''Annex-12-p5'',
       content = lit ''| a | b |'', content_format = Markdown,
       page_image_path = Some (lit ''images/annex12_p5.png'') \<rparr>"

definition rule_entry_b :: entry where
  "rule_entry_b =
     \<lparr> vector = [1/10], source_name = lit ''Rule'', locator = lit ''Annex-12-p6'',
       content = lit ''oxygen level'', content_format = Plain,
       page_image_path = Some (lit ''images/annex12_p6.png'') \<rparr>"

definition abs_distance :: "real list \<Rightarrow> real list \<Rightarrow> real" where
  "abs_distance q v = sum_list (map (\<lambda>(a, b). \<bar>a - b\<bar>) (zip q v))"

definition example_config :: config where
  "example_config =
     \<lparr> configured_indexes = [law_label, rule_label],
       is_law = (\<lambda>l. l = law_label),
       is_rule = (\<lambda>l. l = rule_label),
       static_base = lit ''/static/'',
       embed = (\<lambda>t. [0]),
       dist = abs_distance,
       cite = (\<lambda>s l. s @ lit '' '' @ l) \<rparr>"

definition example_registry :: registry where
  "example_registry =
     [ law_label \<mapsto> \<lparr> label = law_label, dim = 1, entries = [law_entry_a, law_entry_b] \<rparr>,
       rule_label \<mapsto> \<lparr> label = rule_label, dim = 1, entries = [rule_entry_a, rule_entry_b] \<rparr> ]"

definition example_query :: "nat \<Rightarrow> query" where
  "example_query budget =
     \<lparr> question = lit ''What is a confined space?'', query_mode = Auto, top_k = 3,
       context_char_budget = budget, selected_indexes = None \<rparr>"

definition example_hits :: "hit list" where
  "example_hits =
     [ to_hit example_config (rule_entry_a, 1/20),
       to_hit example_config (law_entry_b, 1/10),
       to_hit example_config (rule_entry_b, 1/10) ]"

definition example_response :: response where
  "example_response = \<lparr> hits = example_hits, used_indexes = [law_label, rule_label] \<rparr>"

text \<open>A page on which the user has switched both source databases off and typed a question.\<close>

definition both_off :: "event list" where
  "both_off = [SetUseLaw False, SetUseRule False, TypeText (lit ''hi''), Submit]"

definition out_of_range :: "event list" where
  "out_of_range =
     [ChangeTopk (Finite 25), ChangeCtxChars (Finite 500), TypeText (lit '' hi''), KeyDown (lit ''Enter'') False]"

lemmas example_defs =
  law_label_def rule_label_def law_entry_a_def law_entry_b_def rule_entry_a_def rule_entry_b_def
  abs_distance_def example_config_def example_registry_def example_query_def example_hits_def
  example_response_def

lemmas router_defs =
  answerQuery_def indexes_for_def selected_def candidates_def index_candidates_def search_def
  merge_hits_def merge_key_def to_hit_def lit_def

lemmas page_defs =
  initial_def handleSubmit_def onKeyDown_def handleSend_def
  ask_body_def selected_dbs_def js_trim_def lit_def isWhiteSpace_def setTopk_def setCtxChars_def
  Math_min_def Math_max_def

section \<open>Properties of the chat window\<close>

lemma ask_body_dbs_ok: "dbs_ok (ask_body t w)"
  by (simp add: dbs_ok_def ask_body_def selected_dbs_def)

lemma posted_step:
  "posted (step a e) = posted a \<or>
   (\<exists>t. js_trim t \<noteq> [] \<and> \<not> loading (window a) \<and> posted (step a e) = posted a @ [ask_body t (window a)])"
  by (cases e) (auto simp: handleSubmit_def onKeyDown_def handleSend_def settle_def)

lemma posted_run_invariant:
  assumes "\<And>t w. js_trim t \<noteq> [] \<Longrightarrow> P (ask_body t w)"
    and "list_all P (posted a)"
  shows "list_all P (posted (run a es))"
  using assms(2)
proof (induction es arbitrary: a)
  case Nil
  then show ?case by simp
next
  case (Cons e es)
  have "list_all P (posted (step a e))"
    using posted_step [of a e] Cons.prems assms(1) by auto
  then show ?case using Cons.IH by simp
qed

lemma setTopk_Finite: "setTopk (Finite x) = Finite (min 20 (max 1 x))"
  by (auto simp: setTopk_def Math_min_def Math_max_def)

lemma setCtxChars_Finite: "setCtxChars (Finite x) = Finite (min 20000 (max 1000 x))"
  by (auto simp: setCtxChars_def Math_min_def Math_max_def)

lemma setTopk_in_range: "v \<noteq> NaN \<Longrightarrow> in_range 1 20 (setTopk v)"
  by (cases v) (auto simp: setTopk_def Math_min_def Math_max_def in_range_def)

lemma setCtxChars_in_range: "v \<noteq> NaN \<Longrightarrow> in_range 1000 20000 (setCtxChars v)"
  by (cases v) (auto simp: setCtxChars_def Math_min_def Math_max_def in_range_def)

text \<open>Not a number stays not a number: the clamp does not repair it.\<close>

lemma setTopk_NaN: "setTopk NaN = NaN"
  by (simp add: setTopk_def Math_min_def Math_max_def)

lemma step_controls_ok:
  assumes "numeric e" and "controls_ok (window a)"
  shows "controls_ok (window (step a e))"
  using assms
  by (cases e)
     (auto simp: numeric_def controls_ok_def handleSubmit_def onKeyDown_def handleSend_def
        settle_def setTopk_in_range setCtxChars_in_range)

lemma step_bounds_ok:
  assumes "controls_ok (window a)" and "list_all bounds_ok (posted a)"
  shows "list_all bounds_ok (posted (step a e))"
  using assms posted_step [of a e]
  by (auto simp: bounds_ok_def controls_ok_def ask_body_def)

lemma run_bounds_ok:
  assumes "list_all numeric es" and "controls_ok (window a)" and "list_all bounds_ok (posted a)"
  shows "controls_ok (window (run a es)) \<and> list_all bounds_ok (posted (run a es))"
  using assms
proof (induction es arbitrary: a)
  case Nil
  then show ?case by simp
next
  case (Cons e es)
  from Cons.prems have "numeric e" and rest: "list_all numeric es" by simp_all
  with Cons.prems have "controls_ok (window (step a e))"
    by (simp add: step_controls_ok)
  moreover from Cons.prems have "list_all bounds_ok (posted (step a e))"
    by (simp add: step_bounds_ok)
  ultimately show ?case using Cons.IH [OF rest] by simp
qed

lemma initial_controls_ok: "controls_ok (window initial)"
  by (simp add: initial_def controls_ok_def in_range_def)

lemma question_nonempty: "js_trim t \<noteq> [] \<Longrightarrow> js_trim (body_question (ask_body t w)) \<noteq> []"
  by (simp add: ask_body_def)

lemma out_of_range_posted:
  "posted (run initial out_of_range) =
     [\<lparr> body_question = lit '' hi'', body_topk = Finite 20, body_mode = Auto,
        body_ctx_chars = Finite 1000,
        body_dbs = Some [lit ''vector_db_law'', lit ''vector_db_rule''] \<rparr>]"
  by (simp add: out_of_range_def page_defs)

lemma both_off_posted:
  "posted (run initial both_off) =
     [\<lparr> body_question = lit ''hi'', body_topk = Finite 5, body_mode = Auto,
        body_ctx_chars = Finite 6000, body_dbs = None \<rparr>]"
  by (simp add: both_off_def page_defs)

text \<open>
  Claim C4. The controls start at \<open>topk = 5\<close>, \<open>mode = auto\<close> and \<open>ctxChars = 6000\<close>.
  Every finite number \<open>x\<close> entered is stored as \<open>min 20 (max 1 x)\<close>, respectively
  \<open>min 20000 (max 1000 x)\<close>; every entered number that is not NaN is stored within
  1..20, respectively 1000..20000; and as long as the numbers entered are not NaN, the
  stored controls and the parameters of every request posted stay within these bounds.
\<close>

theorem controls_default_and_clamped:
  "topk (window initial) = Finite 5 \<and> mode (window initial) = Auto
   \<and> ctxChars (window initial) = Finite 6000
   \<and> topk (window (step a (ChangeTopk (Finite x)))) = Finite (min 20 (max 1 x))
   \<and> ctxChars (window (step a (ChangeCtxChars (Finite x)))) = Finite (min 20000 (max 1000 x))
   \<and> (v \<noteq> NaN \<longrightarrow> in_range 1 20 (topk (window (step a (ChangeTopk v))))
                 \<and> in_range 1000 20000 (ctxChars (window (step a (ChangeCtxChars v)))))
   \<and> (list_all numeric es \<longrightarrow> controls_ok (window (run initial es))
                 \<and> list_all bounds_ok (posted (run initial es)))"
proof -
  have "list_all numeric es \<longrightarrow> controls_ok (window (run initial es))
                 \<and> list_all bounds_ok (posted (run initial es))"
    using run_bounds_ok [of es initial] initial_controls_ok by (simp add: initial_def)
  then show ?thesis
    by (simp add: initial_def setTopk_Finite setCtxChars_Finite setTopk_in_range
          setCtxChars_in_range)
qed

theorem controls_default_and_clamped_witness:
  "Finite 25 \<noteq> NaN
   \<and> topk (window (step initial (ChangeTopk (Finite 25)))) = Finite 20
   \<and> ctxChars (window (step initial (ChangeCtxChars (Finite 500)))) = Finite 1000
   \<and> in_range 1 20 (topk (window (step initial (ChangeTopk (Finite 25)))))
   \<and> list_all numeric out_of_range
   \<and> map body_topk (posted (run initial out_of_range)) = [Finite 20]
   \<and> map body_ctx_chars (posted (run initial out_of_range)) = [Finite 1000]
   \<and> list_all bounds_ok (posted (run initial out_of_range))"
proof -
  have n: "list_all numeric out_of_range"
    by (simp add: out_of_range_def numeric_def)
  have "topk (window (step initial (ChangeTopk (Finite 25)))) = Finite (min 20 (max 1 25))"
    and "in_range 1 20 (topk (window (step initial (ChangeTopk (Finite 25)))))"
    and "list_all bounds_ok (posted (run initial out_of_range))"
    using controls_default_and_clamped [of initial 25 "Finite 25" out_of_range] n
    by (simp_all add: in_range_def)
  moreover have "ctxChars (window (step initial (ChangeCtxChars (Finite 500)))) = Finite 1000"
    by (simp add: setCtxChars_Finite)
  ultimately show ?thesis
    using n by (simp add: out_of_range_posted)
qed

text \<open>
  Claim C5. While the typed text trims to the empty string, or a request is in flight (the
  input is disabled), submitting the form or pressing Enter changes nothing and
  \<open>handleSend\<close> returns at its guard, so nothing is sent; and every request the page has
  posted, after any sequence of events, carries a question whose trimmed form is not empty.
\<close>

theorem no_blank_question_posted:
  "(js_trim (input_text a) = [] \<or> loading (window a) \<longrightarrow>
      step a Submit = a \<and> step a (KeyDown key shiftKey) = a)
   \<and> (js_trim t = [] \<or> loading (window a) \<longrightarrow> handleSend t a = a)
   \<and> (\<forall>r \<in> set (posted (run initial es)). js_trim (body_question r) \<noteq> [])"
proof -
  have "list_all (\<lambda>r. js_trim (body_question r) \<noteq> []) (posted (run initial es))"
    by (rule posted_run_invariant) (simp_all add: question_nonempty initial_def)
  then show ?thesis
    by (auto simp: handleSubmit_def onKeyDown_def handleSend_def list_all_iff)
qed

theorem no_blank_question_posted_witness:
  "js_trim (input_text (step initial (TypeText [32, 12288, 10]))) = []
   \<and> step (step initial (TypeText [32, 12288, 10])) Submit = step initial (TypeText [32, 12288, 10])
   \<and> step (step initial (TypeText [32, 12288, 10])) (KeyDown (lit ''Enter'') False)
       = step initial (TypeText [32, 12288, 10])
   \<and> handleSend [32, 12288, 10] initial = initial
   \<and> map body_question (posted (run initial out_of_range)) = [lit '' hi'']
   \<and> js_trim (lit '' hi'') = lit ''hi''
   \<and> js_trim (body_question (hd (posted (run initial out_of_range)))) \<noteq> []"
proof -
  let ?a = "step initial (TypeText [32, 12288, 10])"
  have blank: "js_trim (input_text ?a) = []" "js_trim [32, 12288, 10] = []"
    by (simp_all add: js_trim_def isWhiteSpace_def)
  have mem: "hd (posted (run initial out_of_range)) \<in> set (posted (run initial out_of_range))"
    by (simp add: out_of_range_posted)
  have "step ?a Submit = ?a" and "step ?a (KeyDown (lit ''Enter'') False) = ?a"
    using no_blank_question_posted [of ?a "lit ''Enter''" False] blank by blast+
  moreover have "handleSend [32, 12288, 10] initial = initial"
    using no_blank_question_posted [of initial _ _ "[32, 12288, 10]"] blank by blast
  moreover have "js_trim (body_question (hd (posted (run initial out_of_range)))) \<noteq> []"
    using no_blank_question_posted [of _ _ _ _ out_of_range] mem by blast
  moreover have "js_trim (lit '' hi'') = lit ''hi''"
    by (simp add: js_trim_def isWhiteSpace_def lit_def)
  ultimately show ?thesis
    using blank by (simp add: out_of_range_posted)
qed

text \<open>
  Claim C10. Every request the front end has posted, after any sequence of events, either
  omits \<open>dbs\<close> or carries a non-empty list drawn from \<open>vector_db_law\<close> and
  \<open>vector_db_rule\<close>; with both source databases switched off the field is omitted, and it
  is never the empty list.
\<close>

theorem dbs_omitted_or_nonempty:
  "(\<forall>r \<in> set (posted (run initial es)). dbs_ok r)
   \<and> (\<not> useLaw w \<and> \<not> useRule w \<longrightarrow> body_dbs (ask_body t w) = None)
   \<and> body_dbs (ask_body t w) \<noteq> Some []"
proof -
  have "list_all dbs_ok (posted (run initial es))"
    by (rule posted_run_invariant) (simp_all add: ask_body_dbs_ok initial_def)
  then show ?thesis
    by (simp add: list_all_iff ask_body_def selected_dbs_def)
qed

theorem dbs_omitted_or_nonempty_witness:
  "map body_dbs (posted (run initial both_off)) = [None]
   \<and> dbs_ok (hd (posted (run initial both_off)))
   \<and> map body_dbs (posted (run initial out_of_range))
       = [Some [lit ''vector_db_law'', lit ''vector_db_rule'']]
   \<and> dbs_ok (hd (posted (run initial out_of_range)))
   \<and> \<not> useLaw (window (run initial both_off)) \<and> \<not> useRule (window (run initial both_off))
   \<and> body_dbs (ask_body (lit ''hi'') (window (run initial both_off))) = None"
proof -
  have off: "\<not> useLaw (window (run initial both_off))" "\<not> useRule (window (run initial both_off))"
    by (simp_all add: both_off_def page_defs)
  have "hd (posted (run initial both_off)) \<in> set (posted (run initial both_off))"
    and "hd (posted (run initial out_of_range)) \<in> set (posted (run initial out_of_range))"
    by (simp_all add: both_off_posted out_of_range_posted)
  then have "dbs_ok (hd (posted (run initial both_off)))"
    and "dbs_ok (hd (posted (run initial out_of_range)))"
    using dbs_omitted_or_nonempty [of both_off] dbs_omitted_or_nonempty [of out_of_range]
    by blast+
  moreover have "body_dbs (ask_body (lit ''hi'') (window (run initial both_off))) = None"
    using dbs_omitted_or_nonempty [of _ "window (run initial both_off)" "lit ''hi''"] off
    by blast
  ultimately show ?thesis
    using off by (simp add: both_off_posted out_of_range_posted)
qed

section \<open>Properties of the image address resolution\<close>












text \<open>
  Outside the addresses the server sends, \<open>imgSrc\<close> and \<open>absolutize\<close> differ: a path
  without a leading slash is glued to the base by \<open>imgSrc\<close>, and anything that starts with
  \<open>http\<close> is left as it is.
\<close>

lemma imgSrc_relative_path:
  "imgSrc (lit ''http://127.0.0.1:8000'') (Some (lit ''static/a.png''))
     = Some (lit ''http://127.0.0.1:8000static/a.png'')
   \<and> absolutize new_URL (lit ''http://127.0.0.1:8000'') (Some (lit ''static/a.png''))
     = Some (lit ''http://127.0.0.1:8000/static/a.png'')
   \<and> imgSrc (lit ''http://127.0.0.1:8000'') (Some (lit ''httpdocs/a.png''))
     = Some (lit ''httpdocs/a.png'')
   \<and> absolutize new_URL (lit ''http://127.0.0.1:8000'') (Some (lit ''httpdocs/a.png''))
     = Some (lit ''http://127.0.0.1:8000/httpdocs/a.png'')"
  by (simp add: imgSrc_def absolutize_def is_http_url_def startsWith_def ascii_lower_def
        strip_one_trailing_slash_def strip_trailing_slashes_def strip_leading_slashes_def lit_def)



section \<open>Properties of the query router\<close>

subsection \<open>Searching and pooling\<close>

lemma search_results:
  assumes "search d reg l qv k = Inr found"
  shows "length found \<le> k" and "sorted (map snd found)"
proof -
  from assms obtain ix where "reg l = Some ix"
    by (cases "reg l") (simp_all add: search_def)
  with assms have found:
    "found = take k (sort_key snd (map (\<lambda>e. (e, d qv (vector e))) (entries ix)))"
    by (simp add: search_def split: if_splits)
  show "length found \<le> k" by (simp add: found)
  show "sorted (map snd found)"
    by (simp add: found take_map [symmetric] sorted_wrt_take)
qed

lemma in_index_candidates_iff:
  "c \<in> set (index_candidates cfg reg qv k l) \<longleftrightarrow>
     (\<exists>found. fst c = l \<and> search (dist cfg) reg l qv k = Inr found
        \<and> fst (snd c) < length found \<and> snd (snd c) = to_hit cfg (found ! fst (snd c)))"
proof (cases "search (dist cfg) reg l qv k")
  case (Inl e)
  then show ?thesis by (simp add: index_candidates_def)
next
  case (Inr found)
  obtain l' i h where c: "c = (l', i, h)" by (cases c)
  have "(i, found ! i) \<in> set (enumerate 0 found)" if "i < length found"
    using that by (simp add: in_set_enumerate_eq)
  then show ?thesis
    by (force simp: index_candidates_def Inr c in_set_enumerate_eq)
qed

lemma in_candidates_iff:
  "c \<in> set (candidates cfg reg q) \<longleftrightarrow>
     (\<exists>found. fst c \<in> set (indexes_for cfg q)
        \<and> search (dist cfg) reg (fst c) (embed cfg (question q)) (top_k q) = Inr found
        \<and> fst (snd c) < length found \<and> snd (snd c) = to_hit cfg (found ! fst (snd c)))"
  by (auto simp: candidates_def in_index_candidates_iff)

lemma indexes_for_Auto: "query_mode q = Auto \<Longrightarrow> indexes_for cfg q = selected cfg q"
  by (simp add: indexes_for_def)

subsection \<open>Merging\<close>

lemma key_le_distance_le:
  "merge_key c \<le> merge_key c' \<Longrightarrow> distance (snd (snd c)) \<le> distance (snd (snd c'))"
  by (auto simp: merge_key_def)

lemma sorted_keys_sorted_distances:
  "sorted (map merge_key cs) \<Longrightarrow> sorted (map (\<lambda>c. distance (snd (snd c))) cs)"
  by (induction cs) (auto simp: key_le_distance_le)

lemma sorted_merge_hits: "sorted (map merge_key (merge_hits k cs))"
  by (simp add: merge_hits_def take_map [symmetric] sorted_wrt_take)

lemma merge_hits_length: "length (merge_hits k cs) = min k (length cs)"
  by (simp add: merge_hits_def min.commute)

text \<open>
  Two pooled results with the same label and rank are the same result, so the key
  (distance, label, rank) tells all candidates apart and the sorted order is unique.
\<close>

lemma merge_key_inj: "inj_on merge_key (set (candidates cfg reg q))"
proof (rule inj_onI)
  fix c c'
  assume c: "c \<in> set (candidates cfg reg q)" and c': "c' \<in> set (candidates cfg reg q)"
    and eq: "merge_key c = merge_key c'"
  from eq have same: "fst c = fst c'" "fst (snd c) = fst (snd c')"
    by (simp_all add: merge_key_def)
  from c c' same have "snd (snd c) = snd (snd c')"
    by (auto simp: in_candidates_iff)
  with same show "c = c'" by (simp add: prod_eq_iff)
qed

lemma merge_hits_unique:
  assumes "mset full = mset (candidates cfg reg q)" and "sorted (map merge_key full)"
  shows "merge_hits k (candidates cfg reg q) = take k full"
proof -
  have "sort_key merge_key (candidates cfg reg q) = full"
    using assms merge_key_inj by (intro sort_key_inj_key_eq) simp_all
  then show ?thesis by (simp add: merge_hits_def)
qed

lemma sorted_hd_least:
  assumes "sorted (map f xs)" and "x \<in> set xs"
  shows "f (hd xs) \<le> f x"
  using assms by (cases xs) auto

lemma merge_hits_hd_least:
  assumes "merge_hits k cs \<noteq> []" and "c \<in> set cs"
  shows "merge_key (hd (merge_hits k cs)) \<le> merge_key c"
proof -
  from assms(1) have "0 < k" by (cases k) (simp_all add: merge_hits_def)
  then have "hd (merge_hits k cs) = hd (sort_key merge_key cs)"
    by (simp add: merge_hits_def)
  moreover have "merge_key (hd (sort_key merge_key cs)) \<le> merge_key c"
    using assms(2) by (intro sorted_hd_least) simp_all
  ultimately show ?thesis by simp
qed

subsection \<open>The response\<close>

lemma hits_of_response:
  assumes "answerQuery cfg reg q = Inr r"
  shows "hits r = map (\<lambda>c. snd (snd c)) (merge_hits (top_k q) (candidates cfg reg q))"
    and "used_indexes r = indexes_for cfg q"
  using assms by (auto simp: answerQuery_def Let_def split: if_splits)

lemma example_merged:
  "merge_hits 3 (candidates example_config example_registry (example_query b)) =
     [ (rule_label, 0, to_hit example_config (rule_entry_a, 1/20)),
       (law_label, 0, to_hit example_config (law_entry_b, 1/10)),
       (rule_label, 1, to_hit example_config (rule_entry_b, 1/10)) ]"
  by (simp add: example_defs router_defs)

lemma example_candidates_length:
  "length (candidates example_config example_registry (example_query b)) = 4"
  by (simp add: example_defs router_defs)

lemma example_answer:
  "answerQuery example_config example_registry (example_query b) = Inr example_response"
  by (simp add: example_defs router_defs)

lemma example_distances: "map distance example_hits = [1/20, 1/10, 1/10]"
  by (simp add: example_hits_def to_hit_def)

subsection \<open>The claims about the response\<close>

text \<open>
  Claim C2. In every response of \<open>answerQuery\<close> the hits are sorted by non-decreasing
  distance.
\<close>

theorem hits_sorted_by_distance:
  assumes "answerQuery cfg reg q = Inr r"
  shows "sorted (map distance (hits r))"
proof -
  have "sorted (map (\<lambda>c. distance (snd (snd c))) (merge_hits (top_k q) (candidates cfg reg q)))"
    by (rule sorted_keys_sorted_distances) (rule sorted_merge_hits)
  then show ?thesis
    by (simp add: hits_of_response(1) [OF assms] comp_def)
qed

theorem hits_sorted_by_distance_witness:
  "answerQuery example_config example_registry (example_query 5) = Inr example_response
   \<and> map distance (hits example_response) = [1/20, 1/10, 1/10]
   \<and> sorted (map distance (hits example_response))"
  using hits_sorted_by_distance [OF example_answer] example_answer
  by (simp add: example_response_def example_distances)

text \<open>
  Claim C3. In auto mode every selected index is searched for \<open>top_k\<close> results and is the
  list of indexes used; the pooled candidates are exactly the results of these searches,
  each of at most \<open>top_k\<close> entries; the hits are the first \<open>top_k\<close> entries of the one
  list that holds all candidates sorted by (distance, index label, rank in its index), so
  there are \<open>min top_k n\<close> of them for \<open>n\<close> candidates; the first hit has the least key of
  all candidates; and when some candidate outside index \<open>l\<close> is strictly closer than every
  candidate of \<open>l\<close>, the first hit does not come from \<open>l\<close>. With a law index whose best
  distance is 0.10 and a rule index whose best distance is 0.05, the rule hit is first.
\<close>

theorem auto_mode_global_merge:
  assumes "query_mode q = Auto" and "answerQuery cfg reg q = Inr r"
  shows
    "used_indexes r = selected cfg q
     \<and> (\<forall>c. c \<in> set (candidates cfg reg q) \<longleftrightarrow>
           (\<exists>found. fst c \<in> set (selected cfg q)
              \<and> search (dist cfg) reg (fst c) (embed cfg (question q)) (top_k q) = Inr found
              \<and> length found \<le> top_k q
              \<and> fst (snd c) < length found
              \<and> snd (snd c) = to_hit cfg (found ! fst (snd c))))
     \<and> hits r = map (\<lambda>c. snd (snd c)) (merge_hits (top_k q) (candidates cfg reg q))
     \<and> (\<exists>full. mset full = mset (candidates cfg reg q) \<and> sorted (map merge_key full))
     \<and> (\<forall>full. mset full = mset (candidates cfg reg q) \<and> sorted (map merge_key full) \<longrightarrow>
           merge_hits (top_k q) (candidates cfg reg q) = take (top_k q) full)
     \<and> length (hits r) = min (top_k q) (length (candidates cfg reg q))
     \<and> (\<forall>c \<in> set (candidates cfg reg q). 0 < top_k q \<longrightarrow>
           merge_key (hd (merge_hits (top_k q) (candidates cfg reg q))) \<le> merge_key c)
     \<and> (\<forall>l. 0 < top_k q
             \<and> (\<exists>c \<in> set (candidates cfg reg q). fst c \<noteq> l
                   \<and> (\<forall>c' \<in> set (candidates cfg reg q).
                         fst c' = l \<longrightarrow> distance (snd (snd c)) < distance (snd (snd c'))))
           \<longrightarrow> fst (hd (merge_hits (top_k q) (candidates cfg reg q))) \<noteq> l)"
proof -
  let ?cs = "candidates cfg reg q"
  let ?m = "merge_hits (top_k q) ?cs"
  have used: "used_indexes r = selected cfg q"
    by (simp add: hits_of_response(2) [OF assms(2)] indexes_for_Auto [OF assms(1)])
  have pool: "\<forall>c. c \<in> set ?cs \<longleftrightarrow>
           (\<exists>found. fst c \<in> set (selected cfg q)
              \<and> search (dist cfg) reg (fst c) (embed cfg (question q)) (top_k q) = Inr found
              \<and> length found \<le> top_k q
              \<and> fst (snd c) < length found
              \<and> snd (snd c) = to_hit cfg (found ! fst (snd c)))"
    using search_results(1) by (fastforce simp: in_candidates_iff indexes_for_Auto [OF assms(1)])
  have hs: "hits r = map (\<lambda>c. snd (snd c)) ?m"
    by (rule hits_of_response(1) [OF assms(2)])
  have ex: "\<exists>full. mset full = mset ?cs \<and> sorted (map merge_key full)"
  proof -
    have "mset (sort_key merge_key ?cs) = mset ?cs \<and> sorted (map merge_key (sort_key merge_key ?cs))"
      by simp
    then show ?thesis by blast
  qed
  have uniq: "\<forall>full. mset full = mset ?cs \<and> sorted (map merge_key full) \<longrightarrow> ?m = take (top_k q) full"
    by (simp add: merge_hits_unique)
  have len: "length (hits r) = min (top_k q) (length ?cs)"
    by (simp add: hs merge_hits_length)
  have nonempty: "?m \<noteq> []" if "0 < top_k q" and "c \<in> set ?cs" for c
  proof -
    from that have "0 < length ?cs" by (cases ?cs) auto
    with that(1) have "0 < length ?m" by (simp add: merge_hits_length)
    then show ?thesis by auto
  qed
  have least: "\<forall>c \<in> set ?cs. 0 < top_k q \<longrightarrow> merge_key (hd ?m) \<le> merge_key c"
    using nonempty merge_hits_hd_least by blast
  have first: "fst (hd ?m) \<noteq> l"
    if k: "0 < top_k q" and c: "c \<in> set ?cs" "fst c \<noteq> l"
      and closer: "\<forall>c' \<in> set ?cs. fst c' = l \<longrightarrow> distance (snd (snd c)) < distance (snd (snd c'))"
    for l c
  proof
    assume l: "fst (hd ?m) = l"
    have ne: "?m \<noteq> []" using nonempty k c(1) by blast
    then have "hd ?m \<in> set ?m" by simp
    then have "hd ?m \<in> set ?cs"
      by (auto simp: merge_hits_def dest: in_set_takeD)
    with closer l have "distance (snd (snd c)) < distance (snd (snd (hd ?m)))" by blast
    moreover have "distance (snd (snd (hd ?m))) \<le> distance (snd (snd c))"
      by (rule key_le_distance_le) (rule merge_hits_hd_least [OF ne c(1)])
    ultimately show False by simp
  qed
  from used pool hs ex uniq len least first show ?thesis by blast
qed

theorem auto_mode_global_merge_witness:
  "query_mode (example_query 5) = Auto
   \<and> answerQuery example_config example_registry (example_query 5)
       = Inr example_response
   \<and> used_indexes example_response = selected example_config (example_query 5)
   \<and> map fst (merge_hits 3 (candidates example_config example_registry (example_query 5)))
       = [rule_label, law_label, rule_label]
   \<and> map hit_locator (hits example_response)
       = [lit ''Annex-12-p5'', lit ''Art-1'', lit ''Annex-12-p6'']
   \<and> length (hits example_response) = min 3 4
   \<and> hits example_response
       = map (\<lambda>c. snd (snd c)) (merge_hits 3 (candidates example_config example_registry (example_query 5)))"
proof -
  have auto: "query_mode (example_query 5) = Auto" and k: "top_k (example_query 5) = 3"
    by (simp_all add: example_query_def)
  note t = auto_mode_global_merge [OF auto example_answer, unfolded k]
  from t have "used_indexes example_response = selected example_config (example_query 5)"
    and "hits example_response
       = map (\<lambda>c. snd (snd c)) (merge_hits 3 (candidates example_config example_registry (example_query 5)))"
    and "length (hits example_response)
       = min 3 (length (candidates example_config example_registry (example_query 5)))"
    by blast+
  moreover have "map hit_locator (hits example_response)
       = [lit ''Annex-12-p5'', lit ''Art-1'', lit ''Annex-12-p6'']"
    by (simp add: example_response_def example_hits_def to_hit_def rule_entry_a_def
          rule_entry_b_def law_entry_b_def)
  ultimately show ?thesis
    using auto example_answer
    by (simp add: example_merged example_candidates_length)
qed

end
